theory Spec2Isabelle
  imports Main "HOL-Library.AList" "HOL-Library.Char_ord" "HOL-Library.List_Lexorder"
begin

section \<open>Errors (errors.go) and the response wrapper (Response)\<close>

text \<open>
  Go's \<^verbatim>\<open>[]string\<close>-valued maps \<^verbatim>\<open>http.Header\<close> and \<^verbatim>\<open>url.Values\<close> are association
  lists from a key to its values. A Go map has no order; the list order is the order in
  which keys were first stored, and every operation below reads a key through
  \<^const>\<open>map_of\<close>.
\<close>

type_synonym Header = "(string \<times> string list) list"
type_synonym Values = "(string \<times> string list) list"

text \<open>
  The error values of the package. The seven sentinels of errors.go are constructors.
  \<open>External\<close> is an error made outside the package (encoding/json, net/url, io, the
  transport): its message, whether \<^verbatim>\<open>errors.Is(err, context.DeadlineExceeded)\<close> holds and
  whether it is a \<^verbatim>\<open>net.Error\<close> whose \<^verbatim>\<open>Timeout()\<close> is true. \<open>Errorf_w s e\<close> is
  \<^verbatim>\<open>fmt.Errorf("%w: %v", s, e)\<close>: it wraps \<open>s\<close> and only prints \<open>e\<close>.
  \<open>StatusError c r\<close> is \<^verbatim>\<open>&StatusError{StatusCode: c, Response: r}\<close>, \<open>r\<close> a pointer
  that may be nil. The response wrapper caches an error and the status error holds a
  wrapper, so the types are declared together. A stream is what \<^verbatim>\<open>io.ReadAll\<close> would
  get from the body (the bytes and the error that ends them), with the number of reads
  made and whether it is closed. The unexported fields \<^verbatim>\<open>body\<close> of the wrapper and of
  the builder share a name; the wrapper's is \<open>rbody\<close> here.
\<close>

datatype error =
    ErrRequest | ErrNetwork | ErrTimeout | ErrStatus
  | ErrResponse | ErrResponseNil | ErrNoContent
  | External string bool bool
  | Errorf_w error error
  | StatusError int "response option"
and stream =
    Stream (content: string) (failure: "error option") (reads: nat) (closed: bool)
and http_response =
    HttpResponse (Body: "stream option") (http_StatusCode: int) (http_Header: Header)
and response =
    Response (Raw: "http_response option") (StatusCode: int) (Headers: Header)
             (once: bool) (rbody: string) (bodyErr: "error option")

text \<open>
  \<^verbatim>\<open>errors.Is\<close>: the error itself, or what its \<^verbatim>\<open>Unwrap\<close> chain reaches.
  \<^verbatim>\<open>StatusError.Unwrap\<close> returns \<^verbatim>\<open>ErrStatus\<close>; a sentinel and an external error
  unwrap to nothing of this package.
\<close>

fun errors_Is :: "error \<Rightarrow> error \<Rightarrow> bool" where
  "errors_Is (Errorf_w s e) t = (Errorf_w s e = t \<or> errors_Is s t)"
| "errors_Is (StatusError c r) t = (StatusError c r = t \<or> t = ErrStatus)"
| "errors_Is e t = (e = t)"

text \<open>\<^verbatim>\<open>io.ReadAll\<close> and \<^verbatim>\<open>Close\<close> on the body stream.\<close>

fun io_ReadAll :: "stream \<Rightarrow> stream \<times> string \<times> error option" where
  "io_ReadAll (Stream c f n cl) = (Stream [] f (Suc n) cl, c, f)"

fun Close :: "stream \<Rightarrow> stream" where
  "Close (Stream c f n cl) = Stream c f n True"

fun newResponse :: "http_response option \<Rightarrow> response option" where
  "newResponse None = None"
| "newResponse (Some resp) =
     Some (Response (Some resp) (http_StatusCode resp) (http_Header resp) False [] None)"

text \<open>
  \<^verbatim>\<open>Bytes\<close> returns the wrapper as the call leaves it, and the call's two results. The
  \<^verbatim>\<open>sync.Once\<close> is the flag \<open>once\<close>: the first call reads the stream into the cache,
  then the deferred \<^verbatim>\<open>Close\<close> runs; every call returns the cache.
\<close>

fun Bytes :: "response option \<Rightarrow> response option \<times> string \<times> error option" where
  "Bytes None = (None, [], Some ErrResponseNil)"
| "Bytes (Some (Response None sc hs dn b be)) =
     (Some (Response None sc hs dn b be), [], Some ErrResponseNil)"
| "Bytes (Some (Response (Some (HttpResponse None c h)) sc hs dn b be)) =
     (Some (Response (Some (HttpResponse None c h)) sc hs dn b be), [], Some ErrResponseNil)"
| "Bytes (Some (Response (Some (HttpResponse (Some s) c h)) sc hs dn b be)) =
     (if dn then (Some (Response (Some (HttpResponse (Some s) c h)) sc hs dn b be), b, be)
      else (case io_ReadAll s of (s', b', be') \<Rightarrow>
        (Some (Response (Some (HttpResponse (Some (Close s')) c h)) sc hs True b' be'),
         b', be')))"

fun Text :: "response option \<Rightarrow> response option \<times> string \<times> error option" where
  "Text r = (case Bytes r of (r', b, e) \<Rightarrow> (r', b, e))"

text \<open>
  \<^verbatim>\<open>JSON(v)\<close>. The decoder \<open>unmarshal\<close> is \<^verbatim>\<open>json.Unmarshal(\<cdot>, v)\<close> for the caller's
  target. The third result lists the buffers handed to the decoder by this call.
\<close>

fun JSON :: "(string \<Rightarrow> error option) \<Rightarrow> response option
    \<Rightarrow> response option \<times> error option \<times> string list" where
  "JSON unmarshal r =
     (case Bytes r of (r', b, e) \<Rightarrow>
        (case e of Some x \<Rightarrow> (r', Some x, [])
         | None \<Rightarrow> if length b = 0 then (r', Some ErrNoContent, [])
                   else (r', unmarshal b, [b])))"

section \<open>The standard library the package calls\<close>

text \<open>
  The package is a layer over Go's standard library. The library functions whose result
  the package only passes on are parameters, collected in one record, and every theorem
  below holds for all of them: \<^verbatim>\<open>textproto.CanonicalMIMEHeaderKey\<close>, \<^verbatim>\<open>json.Marshal\<close>,
  \<^verbatim>\<open>url.Parse\<close>, \<^verbatim>\<open>url.QueryEscape\<close>, \<^verbatim>\<open>url.QueryUnescape\<close> (\<open>None\<close> is its error),
  \<^verbatim>\<open>(*url.URL).String\<close>, \<^verbatim>\<open>http.NewRequest\<close>, the text \<^verbatim>\<open>AddCookie\<close> writes for a
  cookie, whether \<^verbatim>\<open>http.DefaultTransport\<close> is a \<^verbatim>\<open>*http.Transport\<close>, and the network
  itself, \<^verbatim>\<open>(*http.Client).Do\<close>. The type \<open>'v\<close> is Go's \<^verbatim>\<open>any\<close>, the values handed to
  \<^verbatim>\<open>WithJSON\<close>.
\<close>

record URL =
  Scheme :: string
  Host :: string
  Path :: string
  RawQuery :: string
  Fragment :: string

datatype reader = bytes_NewReader string | strings_NewReader string | other_Reader string

record Cookie =
  Name :: string
  Value :: string

record http_request =
  req_Method :: string
  req_URL :: string
  req_Header :: Header
  req_Body :: "reader option"

datatype transport = Cloned_DefaultTransport URL | New_Transport URL

record client =
  Timeout :: int
  Transport :: "transport option"
  CheckRedirect :: "(http_request \<Rightarrow> http_request list \<Rightarrow> error option) option"

record 'v env =
  CanonicalMIMEHeaderKey :: "string \<Rightarrow> string"
  json_Marshal :: "'v \<Rightarrow> error + string"
  url_Parse :: "string \<Rightarrow> error + URL"
  QueryEscape :: "string \<Rightarrow> string"
  QueryUnescape :: "string \<Rightarrow> string option"
  URL_String :: "URL \<Rightarrow> string"
  http_NewRequest :: "string \<Rightarrow> string \<Rightarrow> reader option \<Rightarrow> error + http_request"
  cookie_String :: "Cookie \<Rightarrow> string"
  DefaultTransport_is_Transport :: bool
  client_Do :: "client \<Rightarrow> http_request \<Rightarrow> error + http_response"

text \<open>
  \<^verbatim>\<open>http.Header\<close>: \<^verbatim>\<open>Set\<close> stores the one value under the canonical key, \<^verbatim>\<open>Get\<close>
  returns the first value under the canonical key, or the empty string.
\<close>

definition values_of :: "(string \<times> string list) list \<Rightarrow> string \<Rightarrow> string list" where
  "values_of m k = (case map_of m k of None \<Rightarrow> [] | Some vs \<Rightarrow> vs)"

definition Header_Set :: "'v env \<Rightarrow> string \<Rightarrow> string \<Rightarrow> Header \<Rightarrow> Header" where
  "Header_Set E key val h = AList.update (CanonicalMIMEHeaderKey E key) [val] h"

definition Header_Get :: "'v env \<Rightarrow> string \<Rightarrow> Header \<Rightarrow> string" where
  "Header_Get E key h =
     (case values_of h (CanonicalMIMEHeaderKey E key) of [] \<Rightarrow> [] | v # _ \<Rightarrow> v)"

text \<open>
  \<^verbatim>\<open>url.Values\<close>: \<^verbatim>\<open>Add\<close> appends to the key's values, \<^verbatim>\<open>Set\<close> replaces them,
  \<^verbatim>\<open>Encode\<close> writes \<^verbatim>\<open>key=value\<close> pairs joined by \<^verbatim>\<open>&\<close>, keys in sorted order and the
  values of a key in their stored order, both escaped.
\<close>

definition Values_Add :: "string \<Rightarrow> string \<Rightarrow> Values \<Rightarrow> Values" where
  "Values_Add key val v = AList.update key (values_of v key @ [val]) v"

definition Values_Set :: "string \<Rightarrow> string \<Rightarrow> Values \<Rightarrow> Values" where
  "Values_Set key val v = AList.update key [val] v"

fun join :: "string \<Rightarrow> string list \<Rightarrow> string" where
  "join sep [] = []"
| "join sep [x] = x"
| "join sep (x # y # ys) = x @ sep @ join sep (y # ys)"

definition encoded_pairs :: "'v env \<Rightarrow> Values \<Rightarrow> string \<Rightarrow> string list" where
  "encoded_pairs E v k = map (\<lambda>x. QueryEscape E k @ ''='' @ QueryEscape E x) (values_of v k)"

definition Values_Encode :: "'v env \<Rightarrow> Values \<Rightarrow> string" where
  "Values_Encode E v =
     join ''&'' (concat (map (encoded_pairs E v) (sort (remdups (map fst v)))))"

text \<open>
  \<^verbatim>\<open>(*url.URL).Query\<close> parses \<^verbatim>\<open>RawQuery\<close> and drops the parse error: the query is cut
  at every \<^verbatim>\<open>&\<close>; a piece holding a semicolon, an empty piece, and a piece whose key or
  value does not unescape are skipped; every other piece is cut at its first \<^verbatim>\<open>=\<close> and
  added.
\<close>

fun split_on :: "char \<Rightarrow> string \<Rightarrow> string list" where
  "split_on c [] = [[]]"
| "split_on c (x # xs) =
     (if x = c then [] # split_on c xs
      else (case split_on c xs of [] \<Rightarrow> [[x]] | w # ws \<Rightarrow> (x # w) # ws))"

definition parse_piece :: "'v env \<Rightarrow> string \<Rightarrow> Values \<Rightarrow> Values" where
  "parse_piece E piece m =
     (if CHR '';'' \<in> set piece then m
      else if piece = [] then m
      else (case QueryUnescape E (takeWhile (\<lambda>c. c \<noteq> CHR ''='') piece) of
              None \<Rightarrow> m
            | Some k \<Rightarrow>
               (case QueryUnescape E (drop 1 (dropWhile (\<lambda>c. c \<noteq> CHR ''='') piece)) of
                  None \<Rightarrow> m
                | Some x \<Rightarrow> Values_Add k x m)))"

definition URL_Query :: "'v env \<Rightarrow> URL \<Rightarrow> Values" where
  "URL_Query E u = fold (parse_piece E) (split_on CHR ''&'' (RawQuery u)) []"

definition http_ErrUseLastResponse :: error where
  "http_ErrUseLastResponse = External ''net/http: use last response'' False False"

text \<open>
  \<^verbatim>\<open>(*http.Request).AddCookie\<close> appends the cookie's text to the \<^verbatim>\<open>Cookie\<close> header,
  after \<^verbatim>\<open>"; "\<close> when the header has a value.
\<close>

definition AddCookie :: "'v env \<Rightarrow> Cookie \<Rightarrow> http_request \<Rightarrow> http_request" where
  "AddCookie E c req =
     (let cur = Header_Get E ''Cookie'' (req_Header req) in
      req\<lparr>req_Header :=
        Header_Set E ''Cookie''
          (if cur \<noteq> [] then cur @ ''; '' @ cookie_String E c else cookie_String E c)
          (req_Header req)\<rparr>)"

section \<open>The request builder and its options (request.go, options.go)\<close>

record Request =
  method_name :: string
  url :: string
  headers :: "Header option"
  query :: "Values option"
  body :: "reader option"
  timeout :: int
  cookies :: "Cookie option list"
  proxy :: "URL option"
  redirectMax :: "int option"
  decompressGzip :: bool
  err :: "error option"

text \<open>
  An \<^verbatim>\<open>Option\<close> is a closure over a \<^verbatim>\<open>*Request\<close>. The fields of \<^verbatim>\<open>Request\<close> are
  unexported, so the closures that touch them are the eleven the package constructs;
  \<open>NilOption\<close> is a nil closure, which \<^verbatim>\<open>newRequest\<close> skips. A \<^verbatim>\<open>map[string]string\<close>
  argument is the list of its entries in the order the \<^verbatim>\<open>range\<close> loop visits them; a
  pointer that may be nil is an \<open>option\<close>.
\<close>

datatype 'v Option =
    NilOption
  | WithHeader string string
  | WithHeaders "(string \<times> string) list"
  | WithQuery "(string \<times> string) list"
  | WithTimeout int
  | WithDecompressGzip
  | WithJSON 'v
  | WithForm "(string \<times> string) list"
  | WithBody "reader option"
  | WithCookies "Cookie option list"
  | WithProxy string
  | WithRedirect int

definition made :: "'a list option \<Rightarrow> 'a list" where
  "made m = (case m of None \<Rightarrow> [] | Some x \<Rightarrow> x)"

fun apply_option :: "'v env \<Rightarrow> 'v Option \<Rightarrow> Request \<Rightarrow> Request" where
  "apply_option E NilOption r = r"
| "apply_option E (WithHeader key val) r =
     r\<lparr>headers := Some (Header_Set E key val (made (headers r)))\<rparr>"
| "apply_option E (WithHeaders h) r =
     r\<lparr>headers := Some (fold (\<lambda>(k, v). Header_Set E k v) h (made (headers r)))\<rparr>"
| "apply_option E (WithQuery q) r =
     r\<lparr>query := Some (fold (\<lambda>(k, v). Values_Add k v) q (made (query r)))\<rparr>"
| "apply_option E (WithTimeout d) r = r\<lparr>timeout := d\<rparr>"
| "apply_option E WithDecompressGzip r = r\<lparr>decompressGzip := True\<rparr>"
| "apply_option E (WithJSON v) r =
     (if err r \<noteq> None then r
      else (case json_Marshal E v of
              Inl e \<Rightarrow> r\<lparr>err := Some e\<rparr>
            | Inr b \<Rightarrow>
                (let r1 = r\<lparr>body := Some (bytes_NewReader b), headers := Some (made (headers r))\<rparr>
                 in if Header_Get E ''Content-Type'' (made (headers r1)) = []
                    then r1\<lparr>headers :=
                      Some (Header_Set E ''Content-Type'' ''application/json'' (made (headers r1)))\<rparr>
                    else r1)))"
| "apply_option E (WithForm vals) r =
     (if err r \<noteq> None then r
      else r\<lparr>body :=
               Some (strings_NewReader
                 (Values_Encode E (fold (\<lambda>(k, v). Values_Set k v) vals []))),
             headers :=
               Some (Header_Set E ''Content-Type'' ''application/x-www-form-urlencoded''
                 (made (headers r)))\<rparr>)"
| "apply_option E (WithBody b) r = r\<lparr>body := b\<rparr>"
| "apply_option E (WithCookies cs) r = r\<lparr>cookies := cookies r @ cs\<rparr>"
| "apply_option E (WithProxy rawURL) r =
     (if err r \<noteq> None then r
      else (case url_Parse E rawURL of
              Inl e \<Rightarrow> r\<lparr>err := Some e\<rparr>
            | Inr u \<Rightarrow> r\<lparr>proxy := Some u\<rparr>))"
| "apply_option E (WithRedirect mx) r = r\<lparr>redirectMax := Some mx\<rparr>"

definition empty_Request :: "string \<Rightarrow> string \<Rightarrow> Request" where
  "empty_Request m rawURL =
     \<lparr>method_name = m, url = rawURL, headers = None, query = None, body = None, timeout = 0,
      cookies = [], proxy = None, redirectMax = None, decompressGzip = False, err = None\<rparr>"

definition newRequest :: "'v env \<Rightarrow> string \<Rightarrow> string \<Rightarrow> 'v Option list \<Rightarrow> Request" where
  "newRequest E m rawURL opts = fold (apply_option E) opts (empty_Request m rawURL)"

definition buildURL :: "'v env \<Rightarrow> Request \<Rightarrow> error + URL" where
  "buildURL E r =
     (case url_Parse E (url r) of
        Inl e \<Rightarrow> Inl e
      | Inr u \<Rightarrow>
          if length (made (query r)) = 0 then Inr u
          else Inr (u\<lparr>RawQuery :=
                 Values_Encode E
                   (fold (\<lambda>(k, vals) q. fold (Values_Add k) vals q) (made (query r))
                      (URL_Query E u))\<rparr>))"

section \<open>Dispatch (httpclient.go) and sessions\<close>

text \<open>
  The closure \<^verbatim>\<open>buildClient\<close> installs as \<^verbatim>\<open>CheckRedirect\<close>, for the cap \<open>mx\<close>.
\<close>

definition checkRedirect :: "int \<Rightarrow> http_request \<Rightarrow> http_request list \<Rightarrow> error option" where
  "checkRedirect mx req via =
     (if mx \<le> 0 then Some http_ErrUseLastResponse
      else if int (length via) > mx then Some http_ErrUseLastResponse
      else None)"

definition buildClient :: "'v env \<Rightarrow> Request \<Rightarrow> client" where
  "buildClient E r =
     (let c0 = \<lparr>Timeout = 0, Transport = None, CheckRedirect = None\<rparr>;
          c1 = (if timeout r > 0 then c0\<lparr>Timeout := timeout r\<rparr> else c0);
          c2 = (case proxy r of
                  None \<Rightarrow> c1
                | Some p \<Rightarrow>
                    if DefaultTransport_is_Transport E
                    then c1\<lparr>Transport := Some (Cloned_DefaultTransport p)\<rparr>
                    else c1\<lparr>Transport := Some (New_Transport p)\<rparr>)
      in (case redirectMax r of
            None \<Rightarrow> c2
          | Some mx \<Rightarrow> c2\<lparr>CheckRedirect := Some (checkRedirect mx)\<rparr>))"

fun is_DeadlineExceeded :: "error \<Rightarrow> bool" where
  "is_DeadlineExceeded (External msg deadline tmo) = deadline"
| "is_DeadlineExceeded e = False"

fun is_net_Timeout :: "error \<Rightarrow> bool" where
  "is_net_Timeout (External msg deadline tmo) = tmo"
| "is_net_Timeout e = False"

definition classifyErr :: "error \<Rightarrow> error" where
  "classifyErr e =
     (if is_DeadlineExceeded e then Errorf_w ErrTimeout e
      else if is_net_Timeout e then Errorf_w ErrTimeout e
      else Errorf_w ErrNetwork e)"

text \<open>
  \<^verbatim>\<open>AddCookie\<close> reads the fields of its cookie, so a nil cookie panics: \<open>None\<close>.
\<close>

fun addCookies :: "'v env \<Rightarrow> Cookie option list \<Rightarrow> http_request \<Rightarrow> http_request option" where
  "addCookies E [] req = Some req"
| "addCookies E (None # cs) req = None"
| "addCookies E (Some c # cs) req = addCookies E cs (AddCookie E c req)"

text \<open>
  What a call of \<^verbatim>\<open>do\<close> does: it panics, or it returns its two results. Beside the
  outcome, \<open>do\<close> gives the calls of \<^verbatim>\<open>client.Do\<close> it made, each with the client and the
  outbound request: the network I/O of the dispatch.
\<close>

datatype outcome = Panic | Return "response option" "error option"

definition do :: "'v env \<Rightarrow> string \<Rightarrow> string \<Rightarrow> 'v Option list
    \<Rightarrow> outcome \<times> (client \<times> http_request) list" where
  "do E m rawURL opts =
     (let req = newRequest E m rawURL opts in
      case err req of
        Some e \<Rightarrow> (Return None (Some (Errorf_w ErrRequest e)), [])
      | None \<Rightarrow>
      (case buildURL E req of
        Inl e \<Rightarrow> (Return None (Some (Errorf_w ErrRequest e)), [])
      | Inr u \<Rightarrow>
      (case http_NewRequest E m (URL_String E u) (body req) of
        Inl e \<Rightarrow> (Return None (Some (Errorf_w ErrRequest e)), [])
      | Inr httpReq \<Rightarrow>
      (case addCookies E (cookies req)
              (case headers req of None \<Rightarrow> httpReq | Some h \<Rightarrow> httpReq\<lparr>req_Header := h\<rparr>) of
        None \<Rightarrow> (Panic, [])
      | Some httpReq' \<Rightarrow>
      (case client_Do E (buildClient E req) httpReq' of
        Inl e \<Rightarrow> (Return None (Some (classifyErr e)), [(buildClient E req, httpReq')])
      | Inr resp \<Rightarrow>
          if http_StatusCode resp < 200 \<or> http_StatusCode resp \<ge> 300
          then (Return (newResponse (Some resp))
                  (Some (StatusError (http_StatusCode resp) (newResponse (Some resp)))),
                [(buildClient E req, httpReq')])
          else (Return (newResponse (Some resp)) None, [(buildClient E req, httpReq')]))))))"

definition Get :: "'v env \<Rightarrow> string \<Rightarrow> 'v Option list \<Rightarrow> outcome \<times> (client \<times> http_request) list" where
  "Get E rawURL opts = do E ''GET'' rawURL opts"

definition Post :: "'v env \<Rightarrow> string \<Rightarrow> 'v Option list \<Rightarrow> outcome \<times> (client \<times> http_request) list" where
  "Post E rawURL opts = do E ''POST'' rawURL opts"

record 'v Session =
  opts :: "'v Option list"

definition NewSession :: "'v Option list \<Rightarrow> 'v Session" where
  "NewSession os = \<lparr>opts = os\<rparr>"

definition Session_do :: "'v env \<Rightarrow> 'v Session \<Rightarrow> string \<Rightarrow> string \<Rightarrow> 'v Option list
    \<Rightarrow> outcome \<times> (client \<times> http_request) list" where
  "Session_do E s m rawURL os = do E m rawURL (opts s @ os)"

definition Session_Get :: "'v env \<Rightarrow> 'v Session \<Rightarrow> string \<Rightarrow> 'v Option list
    \<Rightarrow> outcome \<times> (client \<times> http_request) list" where
  "Session_Get E s rawURL os = Session_do E s ''GET'' rawURL os"

section \<open>Sequences of accessor calls\<close>

text \<open>
  A caller's use of one wrapper: any sequence of \<^verbatim>\<open>Bytes\<close>, \<^verbatim>\<open>Text\<close> and \<^verbatim>\<open>JSON\<close>
  calls, each on the wrapper as the call before left it, with what each call returned.
\<close>

datatype call = CallBytes | CallText | CallJSON

datatype answer =
    BytesAnswer string "error option"
  | TextAnswer string "error option"
  | JSONAnswer "error option" "string list"

fun run_call :: "(string \<Rightarrow> error option) \<Rightarrow> call \<Rightarrow> response option
    \<Rightarrow> response option \<times> answer" where
  "run_call u CallBytes r = (case Bytes r of (r', b, e) \<Rightarrow> (r', BytesAnswer b e))"
| "run_call u CallText r = (case Text r of (r', b, e) \<Rightarrow> (r', TextAnswer b e))"
| "run_call u CallJSON r = (case JSON u r of (r', e, d) \<Rightarrow> (r', JSONAnswer e d))"

fun run_calls :: "(string \<Rightarrow> error option) \<Rightarrow> call list \<Rightarrow> response option
    \<Rightarrow> response option \<times> answer list" where
  "run_calls u [] r = (r, [])"
| "run_calls u (c # cs) r =
     (case run_call u c r of (r', a) \<Rightarrow>
        (case run_calls u cs r' of (r'', as) \<Rightarrow> (r'', a # as)))"

text \<open>
  What a call answers from a cache holding the bytes \<open>b\<close> and the error \<open>e\<close>: the
  statement of the caching invariant, not code of the package.
\<close>

fun cached_answer :: "(string \<Rightarrow> error option) \<Rightarrow> string \<Rightarrow> error option \<Rightarrow> call \<Rightarrow> answer" where
  "cached_answer u b e CallBytes = BytesAnswer b e"
| "cached_answer u b e CallText = TextAnswer b e"
| "cached_answer u b e CallJSON =
     (case e of Some x \<Rightarrow> JSONAnswer (Some x) []
      | None \<Rightarrow> if b = [] then JSONAnswer (Some ErrNoContent) [] else JSONAnswer (u b) [b])"

section \<open>The redirect loop of the HTTP client\<close>

text \<open>
  How \<^verbatim>\<open>(*http.Client).Do\<close> of net/http uses \<^verbatim>\<open>CheckRedirect\<close>, as its documentation
  states it; the package only installs the policy. \<open>send\<close> is one round trip, and
  \<open>next req resp\<close> is the request a redirect response asks for (\<open>None\<close> when the response
  is not a redirect to follow). Before a redirect is followed the policy is asked with
  the next request and the requests made so far, oldest first. On
  \<^verbatim>\<open>http.ErrUseLastResponse\<close> the client returns the last response and no error; on
  another error it returns the last response and the error. With no policy installed the
  client stops with an error after ten requests. The loop runs on fuel: \<open>None\<close> is a
  loop that did not end within it.
\<close>

definition defaultCheckRedirect :: "http_request \<Rightarrow> http_request list \<Rightarrow> error option" where
  "defaultCheckRedirect req via =
     (if length via \<ge> 10 then Some (External ''stopped after 10 redirects'' False False)
      else None)"

fun client_loop :: "nat \<Rightarrow> (http_request \<Rightarrow> http_request list \<Rightarrow> error option) option
    \<Rightarrow> (http_request \<Rightarrow> error + http_response)
    \<Rightarrow> (http_request \<Rightarrow> http_response \<Rightarrow> http_request option)
    \<Rightarrow> http_request list \<Rightarrow> http_request
    \<Rightarrow> (http_response option \<times> error option \<times> http_request list) option" where
  "client_loop 0 policy send next reqs req = None"
| "client_loop (Suc fuel) policy send next reqs req =
     (case send req of
        Inl e \<Rightarrow> Some (None, Some e, reqs @ [req])
      | Inr resp \<Rightarrow>
          (case next req resp of
             None \<Rightarrow> Some (Some resp, None, reqs @ [req])
           | Some req' \<Rightarrow>
               (case (case policy of None \<Rightarrow> defaultCheckRedirect | Some f \<Rightarrow> f)
                       req' (reqs @ [req]) of
                  None \<Rightarrow> client_loop fuel policy send next (reqs @ [req]) req'
                | Some e \<Rightarrow>
                    if e = http_ErrUseLastResponse
                    then Some (Some resp, None, reqs @ [req])
                    else Some (Some resp, Some e, reqs @ [req]))))"

text \<open>
  The redirect cap in the words of the specification: follow at most \<open>n\<close> redirects and
  return the first response that is not followed, as it is and with no error. The third
  result is the requests sent.
\<close>

fun follow_at_most :: "nat \<Rightarrow> (http_request \<Rightarrow> error + http_response)
    \<Rightarrow> (http_request \<Rightarrow> http_response \<Rightarrow> http_request option)
    \<Rightarrow> http_request list \<Rightarrow> http_request
    \<Rightarrow> http_response option \<times> error option \<times> http_request list" where
  "follow_at_most n send next reqs req =
     (case send req of
        Inl e \<Rightarrow> (None, Some e, reqs @ [req])
      | Inr resp \<Rightarrow>
          (case next req resp of
             None \<Rightarrow> (Some resp, None, reqs @ [req])
           | Some req' \<Rightarrow>
               (case n of
                  0 \<Rightarrow> (Some resp, None, reqs @ [req])
                | Suc k \<Rightarrow> follow_at_most k send next (reqs @ [req]) req')))"

declare follow_at_most.simps [simp del]

section \<open>The pairs of a raw query\<close>

text \<open>
  The statement of what URL composition keeps of a base query, not code of the package.
  A raw query is its pieces joined by \<^verbatim>\<open>&\<close>; a piece is a key alone, or a key, \<^verbatim>\<open>=\<close>
  and a value, where the key holds no \<^verbatim>\<open>=\<close> and neither holds \<^verbatim>\<open>&\<close> (\<open>well_cut\<close>).
  \<open>render_piece\<close> writes a piece and \<open>cut_piece\<close> reads one back. A piece is kept as a
  pair when it is not empty, holds no semicolon, and its key and its value both unescape;
  \<open>kept_values\<close> are the values the kept pairs give a key, in the order of the pieces.
\<close>

fun render_piece :: "string \<times> string option \<Rightarrow> string" where
  "render_piece (k, None) = k"
| "render_piece (k, Some v) = k @ ''='' @ v"

definition kept_pair :: "'v env \<Rightarrow> string \<times> string option \<Rightarrow> (string \<times> string) option" where
  "kept_pair E p =
     (if render_piece p = [] \<or> CHR '';'' \<in> set (render_piece p) then None
      else (case QueryUnescape E (fst p) of
              None \<Rightarrow> None
            | Some k \<Rightarrow>
                (case QueryUnescape E (case snd p of None \<Rightarrow> [] | Some v \<Rightarrow> v) of
                   None \<Rightarrow> None
                 | Some x \<Rightarrow> Some (k, x))))"

definition kept_values :: "'v env \<Rightarrow> (string \<times> string option) list \<Rightarrow> string \<Rightarrow> string list" where
  "kept_values E ps k = map snd (filter (\<lambda>kv. fst kv = k) (List.map_filter (kept_pair E) ps))"

definition well_cut :: "string \<times> string option \<Rightarrow> bool" where
  "well_cut p =
     (CHR ''='' \<notin> set (fst p) \<and> CHR ''&'' \<notin> set (fst p) \<and>
      (case snd p of None \<Rightarrow> True | Some v \<Rightarrow> CHR ''&'' \<notin> set v))"

definition cut_piece :: "string \<Rightarrow> string \<times> string option" where
  "cut_piece p =
     (if CHR ''='' \<in> set p
      then (takeWhile (\<lambda>c. c \<noteq> CHR ''='') p, Some (drop 1 (dropWhile (\<lambda>c. c \<noteq> CHR ''='') p)))
      else (p, None))"

section \<open>A small environment for the examples\<close>

text \<open>
  One instance of the library parameters, on which the general theorems are run: header
  keys and query text are taken as they are, a target splits at its first \<^verbatim>\<open>?\<close> and a
  target starting \<^verbatim>\<open>://\<close> does not parse, the value \<^verbatim>\<open>chan\<close> does not encode, and the
  server answers every request with the given status and the body \<^verbatim>\<open>body\<close>.
\<close>

definition example_parse :: "string \<Rightarrow> error + URL" where
  "example_parse s =
     (if take 3 s = ''://''
      then Inl (External ''parse: missing protocol scheme'' False False)
      else Inr \<lparr>Scheme = [], Host = [], Path = takeWhile (\<lambda>c. c \<noteq> CHR ''?'') s,
                RawQuery = drop 1 (dropWhile (\<lambda>c. c \<noteq> CHR ''?'') s), Fragment = []\<rparr>)"

definition example_env :: "int \<Rightarrow> string env" where
  "example_env status =
     \<lparr>CanonicalMIMEHeaderKey = (\<lambda>k. k),
      json_Marshal = (\<lambda>v. if v = ''chan''
                           then Inl (External ''json: unsupported type: chan int'' False False)
                           else Inr v),
      url_Parse = example_parse,
      QueryEscape = (\<lambda>s. s),
      QueryUnescape = Some,
      URL_String = (\<lambda>u. Path u @ (if RawQuery u = [] then [] else ''?'' @ RawQuery u)),
      http_NewRequest = (\<lambda>m u b. Inr \<lparr>req_Method = m, req_URL = u, req_Header = [], req_Body = b\<rparr>),
      cookie_String = (\<lambda>c. Name c @ ''='' @ Value c),
      DefaultTransport_is_Transport = True,
      client_Do = (\<lambda>c r. Inr (HttpResponse (Some (Stream ''body'' None 0 False)) status []))\<rparr>"

text \<open>
  The same environment with an unescape that fails on every \<^verbatim>\<open>%\<close>, as
  \<^verbatim>\<open>url.QueryUnescape\<close> does on \<^verbatim>\<open>%zz\<close>.
\<close>

definition bad_escape_env :: "int \<Rightarrow> string env" where
  "bad_escape_env status =
     (example_env status)\<lparr>QueryUnescape := (\<lambda>s. if CHR ''%'' \<in> set s then None else Some s)\<rparr>"

text \<open>
  A server for the redirect examples: \<^verbatim>\<open>/a\<close> redirects to \<^verbatim>\<open>/b\<close>, \<^verbatim>\<open>/b\<close> to \<^verbatim>\<open>/c\<close>,
  and every other path answers 200. A response with a \<^verbatim>\<open>Location\<close> asks for that path.
\<close>

definition example_send :: "http_request \<Rightarrow> error + http_response" where
  "example_send q =
     (if req_URL q = ''/a'' then Inr (HttpResponse None 302 [(''Location'', [''/b''])])
      else if req_URL q = ''/b'' then Inr (HttpResponse None 302 [(''Location'', [''/c''])])
      else Inr (HttpResponse None 200 []))"

definition example_next :: "http_request \<Rightarrow> http_response \<Rightarrow> http_request option" where
  "example_next q resp =
     (case values_of (http_Header resp) ''Location'' of
        [] \<Rightarrow> None
      | l # _ \<Rightarrow> Some (q\<lparr>req_URL := l\<rparr>))"

section \<open>Evaluating the examples\<close>

lemmas dispatch_defs =
  do_def newRequest_def empty_Request_def buildURL_def buildClient_def made_def Let_def
  example_env_def example_parse_def

section \<open>The terminal error slot\<close>

lemma apply_option_keeps_err:
  "err r = Some e \<Longrightarrow> err (apply_option E x r) = Some e"
  by (cases x) simp_all

lemma fold_apply_keeps_err:
  "err r = Some e \<Longrightarrow> err (fold (apply_option E) xs r) = Some e"
  by (induction xs arbitrary: r) (simp_all add: apply_option_keeps_err del: apply_option.simps)

text \<open>
  Claim C1. Once the options applied so far (\<open>pre\<close>) have left an error \<open>e\<close> in the
  builder's error slot, every continuation \<open>post\<close> of the option sequence leaves the same
  error there; the options that can fail (and the form option) leave such a builder as
  it is; and dispatch returns a nil wrapper with \<^verbatim>\<open>fmt.Errorf("%w: %v", ErrRequest, e)\<close>,
  which matches \<^verbatim>\<open>ErrRequest\<close>, having made no call of \<^verbatim>\<open>client.Do\<close>.
\<close>

theorem first_error_wins:
  assumes "err (newRequest E m u pre) = Some e"
  shows "err (newRequest E m u (pre @ post)) = Some e \<and>
         apply_option E (WithJSON v) (newRequest E m u pre) = newRequest E m u pre \<and>
         apply_option E (WithProxy p) (newRequest E m u pre) = newRequest E m u pre \<and>
         apply_option E (WithForm f) (newRequest E m u pre) = newRequest E m u pre \<and>
         do E m u (pre @ post) = (Return None (Some (Errorf_w ErrRequest e)), []) \<and>
         errors_Is (Errorf_w ErrRequest e) ErrRequest"
proof -
  have keep: "err (newRequest E m u (pre @ post)) = Some e"
    using assms by (simp add: newRequest_def fold_apply_keeps_err)
  then have "do E m u (pre @ post) = (Return None (Some (Errorf_w ErrRequest e)), [])"
    by (simp add: do_def)
  with keep assms show ?thesis by simp
qed

theorem first_error_wins_witness:
  "err (newRequest (example_env 200) ''GET'' ''http://h/p''
         [WithHeader ''X'' ''1'', WithProxy ''://invalid'']) =
     Some (External ''parse: missing protocol scheme'' False False) \<and>
   err (newRequest (example_env 200) ''GET'' ''http://h/p''
         ([WithHeader ''X'' ''1'', WithProxy ''://invalid''] @ [WithJSON ''chan'', WithTimeout 5])) =
     Some (External ''parse: missing protocol scheme'' False False) \<and>
   do (example_env 200) ''GET'' ''http://h/p''
         ([WithHeader ''X'' ''1'', WithProxy ''://invalid''] @ [WithJSON ''chan'', WithTimeout 5]) =
     (Return None
        (Some (Errorf_w ErrRequest (External ''parse: missing protocol scheme'' False False))), [])"
proof -
  have h: "err (newRequest (example_env 200) ''GET'' ''http://h/p''
         [WithHeader ''X'' ''1'', WithProxy ''://invalid'']) =
     Some (External ''parse: missing protocol scheme'' False False)"
    by (simp add: newRequest_def empty_Request_def example_env_def example_parse_def)
  show ?thesis
    using h first_error_wins [OF h, of "[WithJSON ''chan'', WithTimeout 5]"] by simp
qed

section \<open>The cached body\<close>

lemma Bytes_fresh:
  "Bytes (Some (Response (Some (HttpResponse (Some s) c h)) sc hs False b be)) =
     (Some (Response (Some (HttpResponse (Some (Stream [] (failure s) (Suc (reads s)) True)) c h))
        sc hs True (content s) (failure s)), content s, failure s)"
  by (cases s) simp

lemma run_call_cached:
  "run_call u k (Some (Response (Some (HttpResponse (Some s) c h)) sc hs True b be)) =
     (Some (Response (Some (HttpResponse (Some s) c h)) sc hs True b be), cached_answer u b be k)"
  by (cases k) (auto split: option.splits)

lemma run_calls_cached:
  "run_calls u ks (Some (Response (Some (HttpResponse (Some s) c h)) sc hs True b be)) =
     (Some (Response (Some (HttpResponse (Some s) c h)) sc hs True b be),
      map (cached_answer u b be) ks)"
  by (induction ks) (simp_all add: run_call_cached del: run_call.simps)

lemma run_call_fresh:
  "run_call u k (Some (Response (Some (HttpResponse (Some s) c h)) sc hs False b be)) =
     (Some (Response (Some (HttpResponse (Some (Stream [] (failure s) (Suc (reads s)) True)) c h))
        sc hs True (content s) (failure s)), cached_answer u (content s) (failure s) k)"
  by (cases k) (auto simp: Bytes_fresh simp del: Bytes.simps split: option.splits)

text \<open>
  Claim C2. Take a wrapper over a body stream \<open>s\<close> on which no accessor has run yet, and
  any non-empty sequence of \<^verbatim>\<open>Bytes\<close>, \<^verbatim>\<open>Text\<close> and \<^verbatim>\<open>JSON\<close> calls. Afterwards the
  stream has been read exactly once more than before and is closed, whether or not the
  read failed; the cache holds the bytes and the error of that one read; and every call,
  the first included, answered from those same bytes and that same error.
\<close>

theorem Bytes_reads_stream_once:
  assumes "ks \<noteq> []"
  shows "run_calls u ks (Some (Response (Some (HttpResponse (Some s) c h)) sc hs False b be)) =
     (Some (Response (Some (HttpResponse (Some (Stream [] (failure s) (Suc (reads s)) True)) c h))
        sc hs True (content s) (failure s)),
      map (cached_answer u (content s) (failure s)) ks)"
proof (cases ks)
  case Nil
  with assms show ?thesis by simp
next
  case (Cons k ks')
  then show ?thesis
    by (simp add: run_call_fresh run_calls_cached del: run_call.simps)
qed

theorem Bytes_reads_stream_once_witness:
  "[CallBytes, CallJSON, CallText] \<noteq> [] \<and>
   run_calls (\<lambda>b. None) [CallBytes, CallJSON, CallText]
     (Some (Response (Some (HttpResponse
        (Some (Stream ''hello'' (Some (External ''unexpected EOF'' False False)) 0 False)) 200 []))
        200 [] False [] None)) =
   (Some (Response (Some (HttpResponse
        (Some (Stream [] (Some (External ''unexpected EOF'' False False)) 1 True)) 200 []))
        200 [] True ''hello'' (Some (External ''unexpected EOF'' False False))),
    [BytesAnswer ''hello'' (Some (External ''unexpected EOF'' False False)),
     JSONAnswer (Some (External ''unexpected EOF'' False False)) [],
     TextAnswer ''hello'' (Some (External ''unexpected EOF'' False False))])"
proof -
  have h: "[CallBytes, CallJSON, CallText] \<noteq> []" by simp
  show ?thesis
    using Bytes_reads_stream_once [OF h, of "\<lambda>b. None"
        "Stream ''hello'' (Some (External ''unexpected EOF'' False False)) 0 False"
        200 "[]" 200 "[]" "[]" None]
    by simp
qed

section \<open>Status errors\<close>

text \<open>
  Claim C3, as amended. When dispatch reached the transport and the transport returned a
  response, dispatch returns a non-nil wrapper of that response; with a status code below
  200 or of 300 and above it returns, beside the wrapper, a status error holding that
  code and that wrapper, and with any code from 200 to 299 it returns a nil error.
\<close>

theorem status_error_keeps_wrapper:
  assumes "snd (do E m u os) = [(c, hr)]" and "client_Do E c hr = Inr resp"
  shows "newResponse (Some resp) \<noteq> None \<and>
         fst (do E m u os) =
           (if http_StatusCode resp < 200 \<or> 300 \<le> http_StatusCode resp
            then Return (newResponse (Some resp))
                   (Some (StatusError (http_StatusCode resp) (newResponse (Some resp))))
            else Return (newResponse (Some resp)) None)"
  using assms
  by (auto simp: do_def Let_def split: option.splits sum.splits if_splits)

theorem status_error_keeps_wrapper_witness:
  "snd (do (example_env 404) ''GET'' ''http://h/p'' []) =
     [(\<lparr>Timeout = 0, Transport = None, CheckRedirect = None\<rparr>,
       \<lparr>req_Method = ''GET'', req_URL = ''http://h/p'', req_Header = [], req_Body = None\<rparr>)] \<and>
   client_Do (example_env 404) \<lparr>Timeout = 0, Transport = None, CheckRedirect = None\<rparr>
       \<lparr>req_Method = ''GET'', req_URL = ''http://h/p'', req_Header = [], req_Body = None\<rparr> =
     Inr (HttpResponse (Some (Stream ''body'' None 0 False)) 404 []) \<and>
   fst (do (example_env 404) ''GET'' ''http://h/p'' []) =
     Return
       (Some (Response (Some (HttpResponse (Some (Stream ''body'' None 0 False)) 404 []))
          404 [] False [] None))
       (Some (StatusError 404
          (Some (Response (Some (HttpResponse (Some (Stream ''body'' None 0 False)) 404 []))
             404 [] False [] None))))"
proof -
  have h1: "snd (do (example_env 404) ''GET'' ''http://h/p'' []) =
     [(\<lparr>Timeout = 0, Transport = None, CheckRedirect = None\<rparr>,
       \<lparr>req_Method = ''GET'', req_URL = ''http://h/p'', req_Header = [], req_Body = None\<rparr>)]"
    by (simp add: dispatch_defs)
  have h2: "client_Do (example_env 404) \<lparr>Timeout = 0, Transport = None, CheckRedirect = None\<rparr>
       \<lparr>req_Method = ''GET'', req_URL = ''http://h/p'', req_Header = [], req_Body = None\<rparr> =
     Inr (HttpResponse (Some (Stream ''body'' None 0 False)) 404 [])"
    by (simp add: example_env_def)
  show ?thesis
    using h1 h2 status_error_keeps_wrapper [OF h1 h2] by simp
qed

text \<open>
  The claim as first stated takes the success range to be the half-open interval from 200
  to 299, so that 299 lies outside it. A response with status 299 is returned with a nil
  error.
\<close>

theorem status_299_counterexample:
  "(299::int) \<notin> {200..<299} \<and>
   do (example_env 299) ''GET'' ''http://h/p'' [] =
     (Return
        (Some (Response (Some (HttpResponse (Some (Stream ''body'' None 0 False)) 299 []))
           299 [] False [] None))
        None,
      [(\<lparr>Timeout = 0, Transport = None, CheckRedirect = None\<rparr>,
        \<lparr>req_Method = ''GET'', req_URL = ''http://h/p'', req_Header = [], req_Body = None\<rparr>)])"
  by (simp add: dispatch_defs)

section \<open>URL composition\<close>

lemma values_of_update:
  "values_of (AList.update k vs m) k' = (if k' = k then vs else values_of m k')"
  by (simp add: values_of_def update_conv')

lemma values_of_Values_Add:
  "values_of (Values_Add k v q) k' = (if k' = k then values_of q k @ [v] else values_of q k')"
  by (simp add: Values_Add_def values_of_update)

lemma values_of_fold_Add:
  "values_of (fold (Values_Add k) vals q) k' =
     (if k' = k then values_of q k @ vals else values_of q k')"
  by (induction vals arbitrary: q) (simp_all add: values_of_Values_Add)

lemma values_of_absent: "k \<notin> fst ` set m \<Longrightarrow> values_of m k = []"
proof -
  assume "k \<notin> fst ` set m"
  then have "map_of m k = None" by (simp add: map_of_eq_None_iff)
  then show ?thesis by (simp add: values_of_def)
qed

lemma has_values_is_key: "values_of m k \<noteq> [] \<Longrightarrow> k \<in> fst ` set m"
  using values_of_absent by blast

lemma values_of_merge:
  "distinct (map fst add) \<Longrightarrow>
   values_of (fold (\<lambda>(k, vals) q. fold (Values_Add k) vals q) add q) k' =
     values_of q k' @ values_of add k'"
proof (induction add arbitrary: q)
  case Nil
  then show ?case by (simp add: values_of_def)
next
  case (Cons p add)
  obtain k vals where p: "p = (k, vals)" by (cases p)
  from Cons.prems p have k: "k \<notin> fst ` set add" and d: "distinct (map fst add)" by auto
  have "values_of (p # add) k' = (if k' = k then vals else values_of add k')"
    by (simp add: p values_of_def)
  with Cons.IH [OF d] k show ?case
    by (simp add: p values_of_fold_Add values_of_absent)
qed

lemma distinct_Values_Add: "distinct (map fst q) \<Longrightarrow> distinct (map fst (Values_Add k v q))"
  by (simp add: Values_Add_def distinct_update)

lemma distinct_fold_query:
  "distinct (map fst q) \<Longrightarrow> distinct (map fst (fold (\<lambda>(k, v). Values_Add k v) kvs q))"
  by (induction kvs arbitrary: q) (auto simp: distinct_Values_Add)

lemma apply_option_query_distinct:
  "distinct (map fst (made (query r))) \<Longrightarrow> distinct (map fst (made (query (apply_option E x r))))"
  by (cases x) (auto simp: made_def distinct_fold_query Let_def split: option.splits sum.splits)

lemma fold_apply_query_distinct:
  "distinct (map fst (made (query r))) \<Longrightarrow>
   distinct (map fst (made (query (fold (apply_option E) xs r))))"
  by (induction xs arbitrary: r) (simp_all add: apply_option_query_distinct del: apply_option.simps)

lemma newRequest_query_distinct: "distinct (map fst (made (query (newRequest E m u xs))))"
  unfolding newRequest_def
  by (rule fold_apply_query_distinct) (simp add: empty_Request_def made_def)

lemma apply_option_url: "url (apply_option E x r) = url r"
  by (cases x) (auto simp: Let_def split: sum.splits)

lemma newRequest_url: "url (newRequest E m u xs) = u"
proof -
  have "url (fold (apply_option E) xs r) = url r" for r
    by (induction xs arbitrary: r) (simp_all add: apply_option_url del: apply_option.simps)
  then show ?thesis by (simp add: newRequest_def empty_Request_def)
qed

lemma buildURL_appends:
  assumes "url_Parse E rawURL = Inr u"
  shows "(made (query (newRequest E m rawURL os)) = [] \<longrightarrow>
            buildURL E (newRequest E m rawURL os) = Inr u) \<and>
         (made (query (newRequest E m rawURL os)) \<noteq> [] \<longrightarrow>
            (\<exists>ks. sorted ks \<and> distinct ks \<and>
               (\<forall>k. values_of (URL_Query E u) k @
                       values_of (made (query (newRequest E m rawURL os))) k \<noteq> []
                     \<longrightarrow> k \<in> set ks) \<and>
               buildURL E (newRequest E m rawURL os) =
                 Inr (u\<lparr>RawQuery := join ''&'' (concat (map
                   (\<lambda>k. map (\<lambda>x. QueryEscape E k @ ''='' @ QueryEscape E x)
                      (values_of (URL_Query E u) k @
                       values_of (made (query (newRequest E m rawURL os))) k)) ks))\<rparr>)))"
proof -
  let ?r = "newRequest E m rawURL os"
  let ?add = "made (query ?r)"
  let ?q = "fold (\<lambda>(k, vals) q. fold (Values_Add k) vals q) ?add (URL_Query E u)"
  let ?ks = "sort (remdups (map fst ?q))"
  have merged: "values_of ?q k = values_of (URL_Query E u) k @ values_of ?add k" for k
    by (rule values_of_merge) (rule newRequest_query_distinct)
  have keys: "values_of (URL_Query E u) k @ values_of ?add k \<noteq> [] \<longrightarrow> k \<in> set ?ks" for k
    using has_values_is_key [of ?q k] by (simp add: merged)
  have enc: "Values_Encode E ?q = join ''&'' (concat (map
                   (\<lambda>k. map (\<lambda>x. QueryEscape E k @ ''='' @ QueryEscape E x)
                      (values_of (URL_Query E u) k @ values_of ?add k)) ?ks))"
    by (simp add: Values_Encode_def encoded_pairs_def merged cong: map_cong)
  have empty: "?add = [] \<longrightarrow> buildURL E ?r = Inr u"
    using assms by (simp add: buildURL_def newRequest_url)
  have full: "?add \<noteq> [] \<longrightarrow> buildURL E ?r = Inr (u\<lparr>RawQuery := Values_Encode E ?q\<rparr>)"
    using assms by (simp add: buildURL_def newRequest_url)
  have "sorted ?ks \<and> distinct ?ks" by simp
  with keys enc full have "?add \<noteq> [] \<longrightarrow>
            (\<exists>ks. sorted ks \<and> distinct ks \<and>
               (\<forall>k. values_of (URL_Query E u) k @ values_of ?add k \<noteq> [] \<longrightarrow> k \<in> set ks) \<and>
               buildURL E ?r =
                 Inr (u\<lparr>RawQuery := join ''&'' (concat (map
                   (\<lambda>k. map (\<lambda>x. QueryEscape E k @ ''='' @ QueryEscape E x)
                      (values_of (URL_Query E u) k @ values_of ?add k)) ks))\<rparr>))"
    by (intro impI exI [of _ ?ks]) simp
  with empty show ?thesis by blast
qed

lemma split_on_not_Nil: "split_on c s \<noteq> []"
  by (induction s) (auto split: list.splits)

lemma split_on_free: "c \<notin> set x \<Longrightarrow> split_on c x = [x]"
  by (induction x) (auto split: list.splits)

lemma split_on_cut: "c \<notin> set x \<Longrightarrow> split_on c (x @ c # rest) = x # split_on c rest"
  by (induction x) (auto split: list.splits simp: split_on_not_Nil)

lemma split_on_join:
  "\<forall>p \<in> set ps. c \<notin> set p \<Longrightarrow> ps \<noteq> [] \<Longrightarrow> split_on c (join [c] ps) = ps"
proof (induction ps)
  case Nil
  then show ?case by simp
next
  case (Cons x ps)
  show ?case
  proof (cases ps)
    case Nil
    with Cons.prems show ?thesis by (simp add: split_on_free)
  next
    case (Cons y ys)
    with Cons.prems Cons.IH show ?thesis by (simp add: split_on_cut)
  qed
qed

lemma parse_piece_empty: "parse_piece E [] m = m"
  by (simp add: parse_piece_def)

lemma cut_key_value:
  "CHR ''='' \<notin> set k \<Longrightarrow>
     takeWhile (\<lambda>c. c \<noteq> CHR ''='') (k @ CHR ''='' # v) = k \<and>
     drop (Suc 0) (dropWhile (\<lambda>c. c \<noteq> CHR ''='') (k @ CHR ''='' # v)) = v"
  by (induction k) auto

lemma cut_key_only:
  "CHR ''='' \<notin> set k \<Longrightarrow>
     takeWhile (\<lambda>c. c \<noteq> CHR ''='') k = k \<and>
     drop (Suc 0) (dropWhile (\<lambda>c. c \<noteq> CHR ''='') k) = []"
  by (induction k) auto

lemma parse_rendered_piece:
  assumes "CHR ''='' \<notin> set (fst p)"
  shows "parse_piece E (render_piece p) m =
     (case kept_pair E p of None \<Rightarrow> m | Some (k, x) \<Rightarrow> Values_Add k x m)"
proof (cases p)
  case (Pair k vo)
  with assms have k: "CHR ''='' \<notin> set k" by simp
  show ?thesis
  proof (cases vo)
    case None
    note cut = cut_key_only [OF k, THEN conjunct1] cut_key_only [OF k, THEN conjunct2]
    have "parse_piece E k m =
        (case kept_pair E (k, None) of None \<Rightarrow> m | Some (k, x) \<Rightarrow> Values_Add k x m)"
      by (simp add: parse_piece_def kept_pair_def cut split: option.splits)
    with Pair None show ?thesis by simp
  next
    case (Some v)
    note cut = cut_key_value [OF k, of v, THEN conjunct1]
      cut_key_value [OF k, of v, THEN conjunct2]
    have "parse_piece E (k @ ''='' @ v) m =
        (case kept_pair E (k, Some v) of None \<Rightarrow> m | Some (k, x) \<Rightarrow> Values_Add k x m)"
      by (simp add: parse_piece_def kept_pair_def cut split: option.splits)
    with Pair Some show ?thesis by simp
  qed
qed

lemma values_of_parsed_pieces:
  "\<forall>p \<in> set ps. CHR ''='' \<notin> set (fst p) \<Longrightarrow>
   values_of (fold (parse_piece E) (map render_piece ps) m) k = values_of m k @ kept_values E ps k"
proof (induction ps arbitrary: m)
  case Nil
  then show ?case by (simp add: kept_values_def List.map_filter_simps)
next
  case (Cons p ps)
  then have IH: "values_of (fold (parse_piece E) (map render_piece ps) m') k =
      values_of m' k @ kept_values E ps k" for m'
    by simp
  from Cons.prems have p: "CHR ''='' \<notin> set (fst p)" by simp
  show ?case
    by (cases "kept_pair E p")
       (auto simp: parse_rendered_piece [OF p] IH kept_values_def List.map_filter_simps
          values_of_Values_Add)
qed

lemma render_free: "well_cut p \<Longrightarrow> CHR ''&'' \<notin> set (render_piece p)"
  by (cases p; cases "snd p") (auto simp: well_cut_def)

lemma values_of_URL_Query:
  assumes "RawQuery u = join ''&'' (map render_piece ps)" and "\<forall>p \<in> set ps. well_cut p"
  shows "values_of (URL_Query E u) k = kept_values E ps k"
proof (cases ps)
  case Nil
  with assms show ?thesis
    by (simp add: URL_Query_def parse_piece_empty kept_values_def List.map_filter_simps values_of_def)
next
  case (Cons p ps')
  from assms(2) have free: "\<forall>x \<in> set (map render_piece ps). CHR ''&'' \<notin> set x"
    by (auto simp: render_free)
  from Cons have "map render_piece ps \<noteq> []" by simp
  with free have "split_on CHR ''&'' (join ''&'' (map render_piece ps)) = map render_piece ps"
    using split_on_join [of "map render_piece ps" "CHR ''&''"] by simp
  moreover from assms(2) have "\<forall>p \<in> set ps. CHR ''='' \<notin> set (fst p)"
    by (simp add: well_cut_def)
  ultimately show ?thesis
    using assms(1) values_of_parsed_pieces [of ps E "[]" k]
    by (simp add: URL_Query_def values_of_def)
qed

lemma join_head: "join sep ((x # w) # ws) = x # join sep (w # ws)"
  by (cases ws) simp_all

lemma join_split_on: "join [c] (split_on c s) = s"
proof (induction s)
  case Nil
  show ?case by simp
next
  case (Cons x xs)
  obtain w ws where w: "split_on c xs = w # ws"
    using split_on_not_Nil [of c xs] by (cases "split_on c xs") auto
  with Cons show ?case by (simp add: join_head)
qed

lemma split_on_pieces_free: "p \<in> set (split_on c s) \<Longrightarrow> c \<notin> set p"
  by (induction s arbitrary: p) (auto split: if_splits list.splits)

lemma rejoin_at_equals:
  "CHR ''='' \<in> set p \<Longrightarrow>
   takeWhile (\<lambda>c. c \<noteq> CHR ''='') p @ CHR ''='' # drop (Suc 0) (dropWhile (\<lambda>c. c \<noteq> CHR ''='') p) = p"
  by (induction p) auto

lemma render_cut_piece: "render_piece (cut_piece p) = p"
  by (simp add: cut_piece_def rejoin_at_equals)

lemma well_cut_cut_piece: "CHR ''&'' \<notin> set p \<Longrightarrow> well_cut (cut_piece p)"
  by (auto simp: cut_piece_def well_cut_def dest: set_takeWhileD in_set_dropD set_dropWhileD)

text \<open>Every raw query is such a list of pieces.\<close>

lemma raw_query_has_pieces:
  "\<exists>ps. (\<forall>p \<in> set ps. well_cut p) \<and> s = join ''&'' (map render_piece ps)"
proof (intro exI conjI)
  show "\<forall>p \<in> set (map cut_piece (split_on CHR ''&'' s)). well_cut p"
    by (auto simp: well_cut_cut_piece dest: split_on_pieces_free)
  have "map render_piece (map cut_piece (split_on CHR ''&'' s)) = split_on CHR ''&'' s"
    by (simp add: render_cut_piece cong: map_cong)
  then show "s = join ''&'' (map render_piece (map cut_piece (split_on CHR ''&'' s)))"
    using join_split_on [of "CHR ''&''" s] by simp
qed

text \<open>
  Claim C7, as amended. Let the base target parse to \<open>u\<close>, let the raw query of \<open>u\<close> be
  the pieces \<open>ps\<close> joined by \<^verbatim>\<open>&\<close>, and take the builder any option sequence folds to. If
  it holds no additive query parameter, the composed URL is \<open>u\<close> itself, raw query
  untouched. Otherwise the composed URL is \<open>u\<close> with a new raw query: for a sorted list
  of distinct keys holding every key that has a value, it is the \<^verbatim>\<open>&\<close>-joined, escaped
  \<^verbatim>\<open>key=value\<close> pairs, key by key; and the values of a key are the values of the base's
  kept pieces for it, in their order, followed by the additive values for it. The pieces
  that are empty, hold a semicolon or do not unescape are left out.
\<close>

theorem buildURL_keeps_base_pairs:
  assumes "url_Parse E rawURL = Inr u"
    and "RawQuery u = join ''&'' (map render_piece ps)"
    and "\<forall>p \<in> set ps. well_cut p"
  shows "(made (query (newRequest E m rawURL os)) = [] \<longrightarrow>
            buildURL E (newRequest E m rawURL os) = Inr u) \<and>
         (made (query (newRequest E m rawURL os)) \<noteq> [] \<longrightarrow>
            (\<exists>ks. sorted ks \<and> distinct ks \<and>
               (\<forall>k. kept_values E ps k @
                       values_of (made (query (newRequest E m rawURL os))) k \<noteq> []
                     \<longrightarrow> k \<in> set ks) \<and>
               buildURL E (newRequest E m rawURL os) =
                 Inr (u\<lparr>RawQuery := join ''&'' (concat (map
                   (\<lambda>k. map (\<lambda>x. QueryEscape E k @ ''='' @ QueryEscape E x)
                      (kept_values E ps k @
                       values_of (made (query (newRequest E m rawURL os))) k)) ks))\<rparr>)))"
  using buildURL_appends [OF assms(1), of m os]
  by (simp add: values_of_URL_Query [OF assms(2) assms(3)])

text \<open>
  On the base \<^verbatim>\<open>?a=1;b=2&c=3&a=4\<close> with the additive parameters \<^verbatim>\<open>{a:"3", b:"2"}\<close> the
  piece with the semicolon is left out, 4 is kept and 3 appended for \<^verbatim>\<open>a\<close>; with no
  additive parameter the raw query stays as it is.
\<close>

theorem buildURL_keeps_base_pairs_witness:
  "url_Parse (example_env 200) ''http://h/p?a=1;b=2&c=3&a=4'' =
     Inr \<lparr>Scheme = [], Host = [], Path = ''http://h/p'', RawQuery = ''a=1;b=2&c=3&a=4'',
          Fragment = []\<rparr> \<and>
   ''a=1;b=2&c=3&a=4'' =
     join ''&'' (map render_piece [(''a'', Some ''1;b=2''), (''c'', Some ''3''), (''a'', Some ''4'')]) \<and>
   well_cut (''a'', Some ''1;b=2'') \<and> well_cut (''c'', Some ''3'') \<and>
   well_cut (''a'', Some ''4'') \<and>
   kept_values (example_env 200)
     [(''a'', Some ''1;b=2''), (''c'', Some ''3''), (''a'', Some ''4'')] ''a'' = [''4''] \<and>
   kept_values (example_env 200)
     [(''a'', Some ''1;b=2''), (''c'', Some ''3''), (''a'', Some ''4'')] ''c'' = [''3''] \<and>
   made (query (newRequest (example_env 200) ''GET'' ''http://h/p?a=1;b=2&c=3&a=4''
      [WithQuery [(''a'', ''3''), (''b'', ''2'')]])) \<noteq> [] \<and>
   buildURL (example_env 200) (newRequest (example_env 200) ''GET'' ''http://h/p?a=1;b=2&c=3&a=4''
      [WithQuery [(''a'', ''3''), (''b'', ''2'')]]) =
     Inr \<lparr>Scheme = [], Host = [], Path = ''http://h/p'', RawQuery = ''a=4&a=3&b=2&c=3'',
          Fragment = []\<rparr> \<and>
   made (query (newRequest (example_env 200) ''GET'' ''http://h/p?a=1;b=2&c=3&a=4'' [])) = [] \<and>
   buildURL (example_env 200)
      (newRequest (example_env 200) ''GET'' ''http://h/p?a=1;b=2&c=3&a=4'' []) =
     Inr \<lparr>Scheme = [], Host = [], Path = ''http://h/p'', RawQuery = ''a=1;b=2&c=3&a=4'',
          Fragment = []\<rparr>"
proof -
  let ?ps = "[(''a'', Some ''1;b=2''), (''c'', Some ''3''), (''a'', Some ''4'')]"
  have h1: "url_Parse (example_env 200) ''http://h/p?a=1;b=2&c=3&a=4'' =
     Inr \<lparr>Scheme = [], Host = [], Path = ''http://h/p'', RawQuery = ''a=1;b=2&c=3&a=4'',
          Fragment = []\<rparr>"
    by (simp add: example_env_def example_parse_def)
  have h2: "RawQuery \<lparr>Scheme = [], Host = [], Path = ''http://h/p'',
       RawQuery = ''a=1;b=2&c=3&a=4'', Fragment = []\<rparr> = join ''&'' (map render_piece ?ps)"
    by simp
  have h3: "\<forall>p \<in> set ?ps. well_cut p"
    by (simp add: well_cut_def)
  have ka: "kept_values (example_env 200) ?ps ''a'' = [''4'']"
    and kc: "kept_values (example_env 200) ?ps ''c'' = [''3'']"
    by (simp_all add: kept_values_def kept_pair_def List.map_filter_simps example_env_def)
  have q1: "made (query (newRequest (example_env 200) ''GET'' ''http://h/p?a=1;b=2&c=3&a=4''
      [WithQuery [(''a'', ''3''), (''b'', ''2'')]])) = [(''a'', [''3'']), (''b'', [''2''])]"
    by (simp add: newRequest_def empty_Request_def made_def Values_Add_def values_of_def)
  have q2: "made (query (newRequest (example_env 200) ''GET'' ''http://h/p?a=1;b=2&c=3&a=4'' [])) = []"
    by (simp add: newRequest_def empty_Request_def made_def)
  have b1: "buildURL (example_env 200)
      (newRequest (example_env 200) ''GET'' ''http://h/p?a=1;b=2&c=3&a=4''
        [WithQuery [(''a'', ''3''), (''b'', ''2'')]]) =
     Inr \<lparr>Scheme = [], Host = [], Path = ''http://h/p'', RawQuery = ''a=4&a=3&b=2&c=3'',
          Fragment = []\<rparr>"
    by (simp add: dispatch_defs Values_Add_def values_of_def URL_Query_def parse_piece_def
         Values_Encode_def encoded_pairs_def)
  from buildURL_keeps_base_pairs [OF h1 h2 h3, of "''GET''" "[]"] q2
  have b2: "buildURL (example_env 200)
      (newRequest (example_env 200) ''GET'' ''http://h/p?a=1;b=2&c=3&a=4'' []) =
     Inr \<lparr>Scheme = [], Host = [], Path = ''http://h/p'', RawQuery = ''a=1;b=2&c=3&a=4'',
          Fragment = []\<rparr>"
    by simp
  from h2 have h2': "''a=1;b=2&c=3&a=4'' = join ''&'' (map render_piece ?ps)" by simp
  from q1 have q1': "made (query (newRequest (example_env 200) ''GET''
      ''http://h/p?a=1;b=2&c=3&a=4'' [WithQuery [(''a'', ''3''), (''b'', ''2'')]])) \<noteq> []"
    by simp
  from h3 have w1: "well_cut (''a'', Some ''1;b=2'')" and w2: "well_cut (''c'', Some ''3'')"
    and w3: "well_cut (''a'', Some ''4'')"
    by simp_all
  show ?thesis
    by (intro conjI h1 h2' w1 w2 w3 ka kc q1' b1 q2 b2)
qed

text \<open>
  The claim as first stated keeps every pair of the base query. With an additive
  parameter supplied, the base piece \<^verbatim>\<open>a=1;b=2\<close> and the base pair \<^verbatim>\<open>e=%zz\<close> are gone
  from the composed URL.
\<close>

theorem base_pair_dropped_counterexample:
  "url_Parse (example_env 200) ''http://h/p?a=1;b=2&c=3'' =
     Inr \<lparr>Scheme = [], Host = [], Path = ''http://h/p'', RawQuery = ''a=1;b=2&c=3'',
          Fragment = []\<rparr> \<and>
   buildURL (example_env 200) (newRequest (example_env 200) ''GET'' ''http://h/p?a=1;b=2&c=3''
      [WithQuery [(''f'', ''1'')]]) =
     Inr \<lparr>Scheme = [], Host = [], Path = ''http://h/p'', RawQuery = ''c=3&f=1'',
          Fragment = []\<rparr> \<and>
   url_Parse (bad_escape_env 200) ''http://h/p?e=%zz'' =
     Inr \<lparr>Scheme = [], Host = [], Path = ''http://h/p'', RawQuery = ''e=%zz'',
          Fragment = []\<rparr> \<and>
   buildURL (bad_escape_env 200) (newRequest (bad_escape_env 200) ''GET'' ''http://h/p?e=%zz''
      [WithQuery [(''f'', ''1'')]]) =
     Inr \<lparr>Scheme = [], Host = [], Path = ''http://h/p'', RawQuery = ''f=1'',
          Fragment = []\<rparr>"
  by (simp add: dispatch_defs bad_escape_env_def Values_Add_def values_of_def URL_Query_def
        parse_piece_def Values_Encode_def encoded_pairs_def)

section \<open>The redirect policy\<close>

lemma client_loop_cap:
  "nat mx - length reqs < fuel \<Longrightarrow>
   client_loop fuel (Some (checkRedirect mx)) send next reqs req =
     Some (follow_at_most (nat mx - length reqs) send next reqs req)"
proof (induction fuel arbitrary: reqs req)
  case 0
  then show ?case by simp
next
  case (Suc fuel)
  note unfold = follow_at_most.simps [of _ send "next" reqs req]
  show ?case
  proof (cases "send req")
    case (Inl e)
    then show ?thesis by (simp add: unfold)
  next
    case (Inr resp)
    show ?thesis
    proof (cases "next req resp")
      case None
      with Inr show ?thesis by (simp add: unfold)
    next
      case (Some req')
      show ?thesis
      proof (cases "nat mx - length reqs")
        case 0
        then have "checkRedirect mx req' (reqs @ [req]) = Some http_ErrUseLastResponse"
          by (auto simp: checkRedirect_def)
        with Inr Some 0 show ?thesis by (simp add: unfold)
      next
        case (Suc k)
        then have go: "checkRedirect mx req' (reqs @ [req]) = None"
          by (auto simp: checkRedirect_def)
        from Suc have k: "nat mx - length (reqs @ [req]) = k" by simp
        from Suc Suc.prems have "nat mx - length (reqs @ [req]) < fuel" by simp
        from Suc.IH [OF this, of req'] Inr Some Suc go k show ?thesis
          by (simp add: unfold)
      qed
    qed
  qed
qed

lemma follow_at_most_sent:
  "length (snd (snd (follow_at_most n send next reqs req))) \<le> length reqs + n + 1"
proof (induction n arbitrary: reqs req)
  case 0
  show ?case
    by (simp add: follow_at_most.simps [of 0] split: sum.splits option.splits)
next
  case (Suc n)
  note unfold = follow_at_most.simps [of "Suc n" send "next" reqs req]
  show ?case
  proof (cases "send req")
    case (Inl e)
    then show ?thesis by (simp add: unfold)
  next
    case (Inr resp)
    show ?thesis
    proof (cases "next req resp")
      case None
      with Inr show ?thesis by (simp add: unfold)
    next
      case (Some req')
      from Suc.IH [of "reqs @ [req]" req'] Inr Some show ?thesis by (simp add: unfold)
    qed
  qed
qed

text \<open>
  Claim C6. A builder with no redirect cap installs no policy, so the client keeps its
  default redirect behaviour. With a cap \<open>mx \<ge> 0\<close> the client, run with the installed
  policy, does what the cap says: it follows at most \<open>mx\<close> redirects (it sends at most
  \<open>mx + 1\<close> requests), and returns the first response it does not follow as it is, with
  no error of the policy's making; the loop ends within \<open>mx + 1\<close> rounds. With the cap 0
  it returns the first response, redirect or not.
\<close>

theorem redirect_cap_policy:
  "(redirectMax r = None \<longrightarrow> CheckRedirect (buildClient E r) = None) \<and>
   (redirectMax r = Some mx \<and> 0 \<le> mx \<and> nat mx < fuel \<longrightarrow>
      client_loop fuel (CheckRedirect (buildClient E r)) send next [] req =
        Some (follow_at_most (nat mx) send next [] req) \<and>
      length (snd (snd (follow_at_most (nat mx) send next [] req))) \<le> nat mx + 1) \<and>
   (redirectMax r = Some 0 \<and> 0 < fuel \<longrightarrow>
      client_loop fuel (CheckRedirect (buildClient E r)) send next [] req =
        Some (case send req of
                Inl e \<Rightarrow> (None, Some e, [req])
              | Inr resp \<Rightarrow> (Some resp, None, [req])))"
proof -
  have none: "redirectMax r = None \<longrightarrow> CheckRedirect (buildClient E r) = None"
    by (simp add: buildClient_def Let_def split: option.splits)
  have some: "redirectMax r = Some k \<Longrightarrow> CheckRedirect (buildClient E r) = Some (checkRedirect k)" for k
    by (simp add: buildClient_def Let_def split: option.splits)
  have cap: "redirectMax r = Some mx \<and> 0 \<le> mx \<and> nat mx < fuel \<longrightarrow>
      client_loop fuel (CheckRedirect (buildClient E r)) send next [] req =
        Some (follow_at_most (nat mx) send next [] req) \<and>
      length (snd (snd (follow_at_most (nat mx) send next [] req))) \<le> nat mx + 1"
    using client_loop_cap [of mx "[]" fuel send "next" req]
      follow_at_most_sent [of "nat mx" send "next" "[]" req]
    by (auto simp: some)
  have zero: "redirectMax r = Some 0 \<and> 0 < fuel \<longrightarrow>
      client_loop fuel (CheckRedirect (buildClient E r)) send next [] req =
        Some (case send req of
                Inl e \<Rightarrow> (None, Some e, [req])
              | Inr resp \<Rightarrow> (Some resp, None, [req]))"
    using client_loop_cap [of 0 "[]" fuel send "next" req]
    by (auto simp: some follow_at_most.simps [of 0] split: sum.splits option.splits)
  from none cap zero show ?thesis by blast
qed

theorem redirect_cap_policy_witness:
  "redirectMax (newRequest (example_env 200) ''GET'' ''/a'' [WithRedirect 1]) = Some 1 \<and>
   (0::int) \<le> 1 \<and> nat 1 < 5 \<and>
   client_loop 5
     (CheckRedirect (buildClient (example_env 200)
        (newRequest (example_env 200) ''GET'' ''/a'' [WithRedirect 1])))
     example_send example_next []
     \<lparr>req_Method = ''GET'', req_URL = ''/a'', req_Header = [], req_Body = None\<rparr> =
   Some (Some (HttpResponse None 302 [(''Location'', [''/c''])]), None,
         [\<lparr>req_Method = ''GET'', req_URL = ''/a'', req_Header = [], req_Body = None\<rparr>,
          \<lparr>req_Method = ''GET'', req_URL = ''/b'', req_Header = [], req_Body = None\<rparr>]) \<and>
   redirectMax (newRequest (example_env 200) ''GET'' ''/a'' [WithRedirect 0]) = Some 0 \<and>
   client_loop 5
     (CheckRedirect (buildClient (example_env 200)
        (newRequest (example_env 200) ''GET'' ''/a'' [WithRedirect 0])))
     example_send example_next []
     \<lparr>req_Method = ''GET'', req_URL = ''/a'', req_Header = [], req_Body = None\<rparr> =
   Some (Some (HttpResponse None 302 [(''Location'', [''/b''])]), None,
         [\<lparr>req_Method = ''GET'', req_URL = ''/a'', req_Header = [], req_Body = None\<rparr>]) \<and>
   redirectMax (newRequest (example_env 200) ''GET'' ''/a'' []) = None \<and>
   CheckRedirect (buildClient (example_env 200)
        (newRequest (example_env 200) ''GET'' ''/a'' [])) = None"
proof -
  let ?a = "\<lparr>req_Method = ''GET'', req_URL = ''/a'', req_Header = [], req_Body = None\<rparr>"
  have r1: "redirectMax (newRequest (example_env 200) ''GET'' ''/a'' [WithRedirect 1]) = Some 1"
    and r0: "redirectMax (newRequest (example_env 200) ''GET'' ''/a'' [WithRedirect 0]) = Some 0"
    and rn: "redirectMax (newRequest (example_env 200) ''GET'' ''/a'' []) = None"
    by (simp_all add: newRequest_def empty_Request_def)
  have f1: "follow_at_most (nat 1) example_send example_next [] ?a =
     (Some (HttpResponse None 302 [(''Location'', [''/c''])]), None,
         [?a, \<lparr>req_Method = ''GET'', req_URL = ''/b'', req_Header = [], req_Body = None\<rparr>])"
    by (simp add: follow_at_most.simps example_send_def example_next_def values_of_def)
  have f0: "follow_at_most 0 example_send example_next [] ?a =
     (Some (HttpResponse None 302 [(''Location'', [''/b''])]), None, [?a])"
    by (simp add: follow_at_most.simps example_send_def example_next_def values_of_def)
  have c1: "client_loop 5
     (CheckRedirect (buildClient (example_env 200)
        (newRequest (example_env 200) ''GET'' ''/a'' [WithRedirect 1])))
     example_send example_next [] ?a =
   Some (Some (HttpResponse None 302 [(''Location'', [''/c''])]), None,
         [?a, \<lparr>req_Method = ''GET'', req_URL = ''/b'', req_Header = [], req_Body = None\<rparr>])"
    using r1 f1
      redirect_cap_policy [of "newRequest (example_env 200) ''GET'' ''/a'' [WithRedirect 1]"
        "example_env 200" 1 5 example_send example_next ?a]
    by simp
  have c0: "client_loop 5
     (CheckRedirect (buildClient (example_env 200)
        (newRequest (example_env 200) ''GET'' ''/a'' [WithRedirect 0])))
     example_send example_next [] ?a =
   Some (Some (HttpResponse None 302 [(''Location'', [''/b''])]), None, [?a])"
    using r0 f0
      redirect_cap_policy [of "newRequest (example_env 200) ''GET'' ''/a'' [WithRedirect 0]"
        "example_env 200" 0 5 example_send example_next ?a]
    by simp
  have cn: "CheckRedirect (buildClient (example_env 200)
        (newRequest (example_env 200) ''GET'' ''/a'' [])) = None"
    using rn
      redirect_cap_policy [of "newRequest (example_env 200) ''GET'' ''/a'' []"
        "example_env 200" 0 5 example_send example_next ?a]
    by simp
  show ?thesis
    using r1 r0 rn c1 c0 cn by simp
qed

section \<open>Content-Type of the JSON and form options\<close>

lemma Header_Get_Set: "Header_Get E k (Header_Set E k v h) = v"
  by (simp add: Header_Get_def Header_Set_def values_of_update)

lemma values_of_Header_Set:
  "values_of (Header_Set E k v h) (CanonicalMIMEHeaderKey E k) = [v]"
  by (simp add: Header_Set_def values_of_update)

text \<open>
  Claim C8, as amended. On a builder with no recorded error and a value that encodes, the
  JSON option sets \<^verbatim>\<open>Content-Type\<close> to \<^verbatim>\<open>application/json\<close> exactly when
  \<^verbatim>\<open>Get("Content-Type")\<close> is the empty string (no such header, or one whose first value
  is empty), and otherwise leaves the headers as they are. On a builder with no recorded
  error the form option always sets \<^verbatim>\<open>Content-Type\<close> to
  \<^verbatim>\<open>application/x-www-form-urlencoded\<close>, as its only value. On a builder with a recorded
  error both options change nothing.
\<close>

theorem content_type_json_form:
  "(err r = None \<and> json_Marshal E v = Inr b \<longrightarrow>
      made (headers (apply_option E (WithJSON v) r)) =
        (if Header_Get E ''Content-Type'' (made (headers r)) = []
         then Header_Set E ''Content-Type'' ''application/json'' (made (headers r))
         else made (headers r)) \<and>
      Header_Get E ''Content-Type'' (made (headers (apply_option E (WithJSON v) r))) =
        (if Header_Get E ''Content-Type'' (made (headers r)) = []
         then ''application/json''
         else Header_Get E ''Content-Type'' (made (headers r)))) \<and>
   (err r = None \<longrightarrow>
      made (headers (apply_option E (WithForm f) r)) =
        Header_Set E ''Content-Type'' ''application/x-www-form-urlencoded'' (made (headers r)) \<and>
      values_of (made (headers (apply_option E (WithForm f) r)))
          (CanonicalMIMEHeaderKey E ''Content-Type'') =
        [''application/x-www-form-urlencoded'']) \<and>
   (err r \<noteq> None \<longrightarrow>
      apply_option E (WithJSON v) r = r \<and> apply_option E (WithForm f) r = r)"
  by (auto simp: made_def Header_Get_Set values_of_Header_Set)

theorem content_type_json_form_witness:
  "err (newRequest (example_env 200) ''POST'' ''http://h/p''
      [WithHeader ''Content-Type'' ''text/plain'']) = None \<and>
   json_Marshal (example_env 200) ''{}'' = Inr ''{}'' \<and>
   headers (apply_option (example_env 200) (WithJSON ''{}'')
     (newRequest (example_env 200) ''POST'' ''http://h/p''
        [WithHeader ''Content-Type'' ''text/plain''])) =
     Some [(''Content-Type'', [''text/plain''])] \<and>
   headers (apply_option (example_env 200) (WithForm [(''name'', ''bob'')])
     (newRequest (example_env 200) ''POST'' ''http://h/p''
        [WithHeader ''Content-Type'' ''text/plain''])) =
     Some [(''Content-Type'', [''application/x-www-form-urlencoded''])] \<and>
   headers (apply_option (example_env 200) (WithJSON ''{}'')
     (newRequest (example_env 200) ''POST'' ''http://h/p'' [])) =
     Some [(''Content-Type'', [''application/json''])]"
  using content_type_json_form [of "newRequest (example_env 200) ''POST'' ''http://h/p''
        [WithHeader ''Content-Type'' ''text/plain'']" "example_env 200" "''{}''" "''{}''"
        "[(''name'', ''bob'')]"]
  by (simp add: newRequest_def empty_Request_def made_def example_env_def example_parse_def
       Header_Set_def Header_Get_def values_of_def)

text \<open>
  The claim as first stated fails twice. A caller-supplied \<^verbatim>\<open>Content-Type\<close> header with
  the empty value is present, and the JSON option replaces it. And after an option has
  recorded an error (here a proxy URL that does not parse), the form option leaves the
  caller's \<^verbatim>\<open>Content-Type\<close> in place.
\<close>

theorem content_type_counterexample:
  "headers (newRequest (example_env 200) ''POST'' ''http://h/p''
      [WithHeader ''Content-Type'' [], WithJSON ''{}'']) =
     Some [(''Content-Type'', [''application/json''])] \<and>
   headers (newRequest (example_env 200) ''POST'' ''http://h/p''
      [WithHeader ''Content-Type'' []]) =
     Some [(''Content-Type'', [[]])] \<and>
   headers (newRequest (example_env 200) ''POST'' ''http://h/p''
      [WithHeader ''Content-Type'' ''text/plain'', WithProxy ''://invalid'',
       WithForm [(''name'', ''bob'')]]) =
     Some [(''Content-Type'', [''text/plain''])]"
  by (simp add: newRequest_def empty_Request_def made_def example_env_def example_parse_def
       Header_Set_def Header_Get_def values_of_def)

section \<open>Header overwrite and session defaults\<close>

lemma newRequest_append:
  "newRequest E m u (xs @ ys) = fold (apply_option E) ys (newRequest E m u xs)"
  by (simp add: newRequest_def)

text \<open>
  Claim C9. Setting a header overwrites by key and the fold runs left to right: after
  \<^verbatim>\<open>header(K, a)\<close> then \<^verbatim>\<open>header(K, b)\<close> the key holds the one value \<open>b\<close>. A session
  call dispatches the session's options followed by the call's options, folded over a
  fresh builder, so where the session's defaults set \<open>K\<close> to \<open>a\<close> and the call's options
  end by setting \<open>K\<close> to \<open>b\<close>, the key holds the one value \<open>b\<close>.
\<close>

theorem later_header_wins:
  "values_of (made (headers (fold (apply_option E) [WithHeader K a, WithHeader K b] r)))
      (CanonicalMIMEHeaderKey E K) = [b] \<and>
   Header_Get E K (made (headers (fold (apply_option E) [WithHeader K a, WithHeader K b] r))) = b \<and>
   Session_do E (NewSession ds) m u ps = do E m u (ds @ ps) \<and>
   newRequest E m u (ds @ ps) = fold (apply_option E) ps (newRequest E m u ds) \<and>
   values_of (made (headers (newRequest E m u (ds @ [WithHeader K a]))))
      (CanonicalMIMEHeaderKey E K) = [a] \<and>
   values_of (made (headers (newRequest E m u ((ds @ [WithHeader K a] @ ds') @ (ps @ [WithHeader K b])))))
      (CanonicalMIMEHeaderKey E K) = [b]"
proof -
  have last: "values_of (made (headers (newRequest E m u (xs @ [WithHeader K v]))))
      (CanonicalMIMEHeaderKey E K) = [v]" for xs v
    by (simp add: newRequest_append made_def values_of_Header_Set)
  have "values_of (made (headers (newRequest E m u ((ds @ [WithHeader K a] @ ds') @ (ps @ [WithHeader K b])))))
      (CanonicalMIMEHeaderKey E K) = [b]"
    using last [of "ds @ [WithHeader K a] @ ds' @ ps" b] by simp
  with last [of ds a] show ?thesis
    by (simp add: Session_do_def NewSession_def newRequest_append made_def
          values_of_Header_Set Header_Get_Set)
qed

theorem later_header_wins_witness:
  "headers (newRequest (example_env 200) ''GET'' ''http://h/p''
      (opts (NewSession [WithHeader ''X-Key'' ''default'']) @ [WithHeader ''X-Key'' ''override''])) =
     Some [(''X-Key'', [''override''])] \<and>
   snd (Session_do (example_env 200) (NewSession [WithHeader ''X-Key'' ''default''])
          ''GET'' ''http://h/p'' [WithHeader ''X-Key'' ''override'']) =
     [(\<lparr>Timeout = 0, Transport = None, CheckRedirect = None\<rparr>,
       \<lparr>req_Method = ''GET'', req_URL = ''http://h/p'',
        req_Header = [(''X-Key'', [''override''])], req_Body = None\<rparr>)]"
  using later_header_wins [of "example_env 200" "''X-Key''" "''default''" "''override''"
      "empty_Request ''GET'' ''http://h/p''" "[WithHeader ''X-Key'' ''default'']"
      "''GET''" "''http://h/p''" "[WithHeader ''X-Key'' ''override'']" "[]"]
  by (simp add: dispatch_defs NewSession_def Header_Set_def)

section \<open>The gzip flag\<close>

lemma apply_option_gzip:
  "apply_option E x (r\<lparr>decompressGzip := True\<rparr>) = (apply_option E x r)\<lparr>decompressGzip := True\<rparr>"
  by (cases x) (auto simp: Let_def split: sum.splits)

lemma fold_apply_gzip:
  "fold (apply_option E) xs (r\<lparr>decompressGzip := True\<rparr>) =
     (fold (apply_option E) xs r)\<lparr>decompressGzip := True\<rparr>"
  by (induction xs arbitrary: r) (simp_all add: apply_option_gzip del: apply_option.simps)

lemma newRequest_gzip:
  "newRequest E m u (pre @ WithDecompressGzip # post) =
     (newRequest E m u (pre @ post))\<lparr>decompressGzip := True\<rparr>"
  by (simp add: newRequest_def fold_apply_gzip)

lemma buildURL_gzip: "buildURL E (r\<lparr>decompressGzip := g\<rparr>) = buildURL E r"
  by (simp add: buildURL_def split: sum.splits)

lemma buildClient_gzip: "buildClient E (r\<lparr>decompressGzip := g\<rparr>) = buildClient E r"
  by (simp add: buildClient_def Let_def split: option.splits)

text \<open>
  Claim C10. \<^verbatim>\<open>WithDecompressGzip\<close> anywhere in an option sequence changes the builder
  in its \<open>decompressGzip\<close> field only; the client built, the outcome of the dispatch, the
  calls of \<^verbatim>\<open>client.Do\<close> with their outbound requests, and what any sequence of
  accessor calls on the returned wrapper answers are those of the sequence without it.
\<close>

theorem decompressGzip_is_write_only:
  "newRequest E m u (pre @ WithDecompressGzip # post) =
     (newRequest E m u (pre @ post))\<lparr>decompressGzip := True\<rparr> \<and>
   buildClient E (newRequest E m u (pre @ WithDecompressGzip # post)) =
     buildClient E (newRequest E m u (pre @ post)) \<and>
   do E m u (pre @ WithDecompressGzip # post) = do E m u (pre @ post) \<and>
   (case fst (do E m u (pre @ WithDecompressGzip # post)) of
      Panic \<Rightarrow> None | Return w e \<Rightarrow> Some (run_calls unm ks w)) =
   (case fst (do E m u (pre @ post)) of
      Panic \<Rightarrow> None | Return w e \<Rightarrow> Some (run_calls unm ks w))"
proof -
  have same: "do E m u (pre @ WithDecompressGzip # post) = do E m u (pre @ post)"
    unfolding do_def newRequest_gzip Let_def buildURL_gzip buildClient_gzip
    by (simp split: sum.splits option.splits)
  then show ?thesis
    by (simp add: newRequest_gzip buildClient_gzip)
qed

section \<open>Errors of the accessors\<close>

text \<open>
  Claim C4, on the code. \<^verbatim>\<open>Bytes\<close> answers \<^verbatim>\<open>ErrResponseNil\<close> for a nil wrapper, a
  nil raw response and a nil body. When the read of the body fails with an error \<open>e\<close>,
  \<^verbatim>\<open>Bytes\<close> returns \<open>e\<close> itself: a stream that fails with \<^verbatim>\<open>unexpected EOF\<close> gives an
  error that does not match \<^verbatim>\<open>ErrResponse\<close>.
\<close>

theorem Bytes_returns_read_error_unwrapped:
  "Bytes None = (None, [], Some ErrResponseNil) \<and>
   snd (Bytes (Some (Response None sc hs dn b be))) = ([], Some ErrResponseNil) \<and>
   snd (Bytes (Some (Response (Some (HttpResponse None c h)) sc hs dn b be))) =
     ([], Some ErrResponseNil) \<and>
   snd (Bytes (Some (Response (Some (HttpResponse (Some (Stream d (Some e) n cl)) c h))
          sc hs False b be))) = (d, Some e) \<and>
   snd (Bytes (Some (Response (Some (HttpResponse
          (Some (Stream ''par'' (Some (External ''unexpected EOF'' False False)) 0 False))
          200 [])) 200 [] False [] None))) =
     (''par'', Some (External ''unexpected EOF'' False False)) \<and>
   \<not> errors_Is (External ''unexpected EOF'' False False) ErrResponse"
  by simp

text \<open>
  Claim C5, on the code. On an empty body \<^verbatim>\<open>JSON\<close> answers \<^verbatim>\<open>ErrNoContent\<close> and hands
  nothing to the decoder. On a non-empty body it returns what the decoder returns: for
  the body \<^verbatim>\<open>not json\<close> the decoder's syntax error, which does not match
  \<^verbatim>\<open>ErrResponse\<close>.
\<close>

theorem JSON_returns_decode_error_unwrapped:
  "snd (JSON u (Some (Response (Some (HttpResponse (Some (Stream [] None n cl)) c h))
          sc hs False b be))) = (Some ErrNoContent, []) \<and>
   snd (JSON u (Some (Response (Some (HttpResponse (Some (Stream (x # d) None n cl)) c h))
          sc hs False b be))) = (u (x # d), [x # d]) \<and>
   snd (JSON (\<lambda>b. Some (External ''invalid character o in literal null'' False False))
          (Some (Response (Some (HttpResponse (Some (Stream ''not json'' None 0 False)) 200 []))
             200 [] False [] None))) =
     (Some (External ''invalid character o in literal null'' False False), [''not json'']) \<and>
   \<not> errors_Is (External ''invalid character o in literal null'' False False) ErrResponse"
  by simp

end
